theory Spec2Isabelle
  imports Main "HOL-Library.Char_ord" "HOL-Library.List_Lexorder"
begin

section \<open>Python values used by transx2gtfs\<close>

text \<open>
  The exceptions that the modelled functions can raise. A Python function that raises is a
  HOL function into \<open>py_error + 'a\<close> returning \<open>Inl\<close>.
\<close>

datatype py_error =
  IndexError | ValueError | KeyError | AttributeError | TypeError | UnboundLocalError

subsection \<open>Strings\<close>

text \<open>\<^verbatim>\<open>sub in s\<close> on strings: \<open>sub\<close> occurs in \<open>s\<close> as a contiguous run.\<close>

definition starts_with :: "string \<Rightarrow> string \<Rightarrow> bool" where
  "starts_with s sub = (take (length sub) s = sub)"

fun str_in :: "string \<Rightarrow> string \<Rightarrow> bool" where
  "str_in sub [] = (sub = [])"
| "str_in sub (c # cs) = (starts_with (c # cs) sub \<or> str_in sub cs)"

text \<open>
  \<^verbatim>\<open>s.split(sep)\<close> for a non-empty separator: the pieces between the non-overlapping
  occurrences of \<open>sep\<close>, found from the left. \<open>acc\<close> holds the current piece, reversed.
  (Python raises ValueError on an empty separator; every call site passes a literal.)
\<close>

function split_from :: "string \<Rightarrow> string \<Rightarrow> string \<Rightarrow> string list" where
  "split_from sep acc [] = [rev acc]"
| "split_from sep acc (c # cs) =
     (if sep \<noteq> [] \<and> starts_with (c # cs) sep
      then rev acc # split_from sep [] (drop (length sep) (c # cs))
      else split_from sep (c # acc) cs)"
  by pat_completeness auto
termination
  by (relation "measure (\<lambda>(sep, acc, s). length s)") auto

definition split :: "string \<Rightarrow> string \<Rightarrow> string list" where
  "split s sep = split_from sep [] s"

text \<open>\<^verbatim>\<open>str.isspace\<close> on the ASCII range: 0x09-0x0D, 0x1C-0x1F and the blank.\<close>

definition is_space :: "char \<Rightarrow> bool" where
  "is_space c = (let n = of_char c :: nat in (9 \<le> n \<and> n \<le> 13) \<or> (28 \<le> n \<and> n \<le> 32))"

definition strip :: "string \<Rightarrow> string" where
  "strip s = rev (dropWhile is_space (rev (dropWhile is_space s)))"

text \<open>\<^verbatim>\<open>str.lower\<close> on the ASCII range (bytes above 127 are left as they are).\<close>

definition lower_char :: "char \<Rightarrow> char" where
  "lower_char c = (let n = of_char c :: nat in if 65 \<le> n \<and> n \<le> 90 then char_of (n + 32) else c)"

definition lower :: "string \<Rightarrow> string" where
  "lower s = map lower_char s"

subsection \<open>Integers and their decimal text\<close>

definition is_digit :: "char \<Rightarrow> bool" where
  "is_digit c = (let n = of_char c :: nat in 48 \<le> n \<and> n \<le> 57)"

definition digit_val :: "char \<Rightarrow> nat" where
  "digit_val c = of_char c - 48"

text \<open>
  The digits of an integer literal after its first digit: digits, each optionally preceded
  by one underscore.
\<close>

fun int_digits :: "nat \<Rightarrow> string \<Rightarrow> nat option" where
  "int_digits acc [] = Some acc"
| "int_digits acc [c] = (if is_digit c then Some (10 * acc + digit_val c) else None)"
| "int_digits acc (c # d # ds) =
     (if is_digit c then int_digits (10 * acc + digit_val c) (d # ds)
      else if c = CHR ''_'' \<and> is_digit d then int_digits (10 * acc + digit_val d) ds
      else None)"

definition int_unsigned :: "string \<Rightarrow> nat option" where
  "int_unsigned s =
     (case s of [] \<Rightarrow> None
      | c # cs \<Rightarrow> if is_digit c then int_digits (digit_val c) cs else None)"

text \<open>
  \<^verbatim>\<open>int(s)\<close> for a string: surrounding whitespace is dropped, one sign is allowed, and
  anything else than a decimal literal raises ValueError. (The interpreter's limit on the
  number of digits is not modelled; it only adds ValueErrors on texts of thousands of digits.)
\<close>

definition py_int :: "string \<Rightarrow> py_error + int" where
  "py_int s =
     (case strip s of
        [] \<Rightarrow> Inl ValueError
      | c # cs \<Rightarrow>
          if c = CHR ''-'' then
            (case int_unsigned cs of None \<Rightarrow> Inl ValueError | Some n \<Rightarrow> Inr (- int n))
          else if c = CHR ''+'' then
            (case int_unsigned cs of None \<Rightarrow> Inl ValueError | Some n \<Rightarrow> Inr (int n))
          else
            (case int_unsigned (c # cs) of None \<Rightarrow> Inl ValueError | Some n \<Rightarrow> Inr (int n)))"

text \<open>\<^verbatim>\<open>str(n)\<close> for an integer and \<^verbatim>\<open>s.zfill(width)\<close>, which pads after a sign.\<close>

definition digit_char :: "nat \<Rightarrow> char" where
  "digit_char d = char_of (48 + d)"

function str_nat :: "nat \<Rightarrow> string" where
  "str_nat n = (if n < 10 then [digit_char n] else str_nat (n div 10) @ [digit_char (n mod 10)])"
  by pat_completeness auto
termination
  by (relation "measure id") auto

declare str_nat.simps [simp del]

definition str_int :: "int \<Rightarrow> string" where
  "str_int i = (if i < 0 then CHR ''-'' # str_nat (nat (- i)) else str_nat (nat i))"

definition zfill :: "string \<Rightarrow> nat \<Rightarrow> string" where
  "zfill s width =
     (case s of
        [] \<Rightarrow> replicate width CHR ''0''
      | c # cs \<Rightarrow>
          if c = CHR ''-'' \<or> c = CHR ''+''
          then c # replicate (width - length s) CHR ''0'' @ cs
          else replicate (width - length s) CHR ''0'' @ s)"

subsection \<open>Dates and times\<close>

text \<open>
  \<open>current_date\<close> is the day the conversion runs on, and every \<open>datetime\<close> of the
  program is built from it. A \<open>datetime\<close> is modelled as the number of seconds since the
  midnight that starts \<open>current_date\<close> (all of them are whole seconds), a \<open>timedelta\<close>
  as its number of microseconds. The range limits of \<open>datetime\<close> (year 9999) are not
  modelled.
\<close>

type_synonym datetime = int
type_synonym timedelta = int

definition dt_hour :: "datetime \<Rightarrow> int" where
  "dt_hour dt = (dt div 3600) mod 24"

definition dt_minute :: "datetime \<Rightarrow> int" where
  "dt_minute dt = (dt div 60) mod 60"

definition dt_second :: "datetime \<Rightarrow> int" where
  "dt_second dt = dt mod 60"

text \<open>\<^verbatim>\<open>dt.strftime("%M:%S")\<close>.\<close>

definition strftime_MS :: "datetime \<Rightarrow> string" where
  "strftime_MS dt = zfill (str_int (dt_minute dt)) 2 @ '':'' @ zfill (str_int (dt_second dt)) 2"

text \<open>\<^verbatim>\<open>a - b\<close> on two datetimes, and \<^verbatim>\<open>timedelta(seconds=n)\<close> added to one.\<close>

definition dt_diff :: "datetime \<Rightarrow> datetime \<Rightarrow> timedelta" where
  "dt_diff a b = (a - b) * 1000000"

text \<open>
  \<^verbatim>\<open>td / n\<close> for an integer \<open>n > 0\<close>: the quotient of the microseconds, rounded to the
  nearest, a tie to the even one.
\<close>

definition td_truediv :: "timedelta \<Rightarrow> int \<Rightarrow> timedelta" where
  "td_truediv td n =
     (let q = td div n; r = td mod n
      in if 2 * r > n \<or> (2 * r = n \<and> q mod 2 = 1) then q + 1 else q)"

text \<open>\<^verbatim>\<open>td.seconds\<close>: the seconds left once the whole days are taken out (0 to 86399).\<close>

definition td_seconds :: "timedelta \<Rightarrow> int" where
  "td_seconds td = (td div 1000000) mod 86400"

section \<open>transxchange.py: the duration parser\<close>

text \<open>
  \<^verbatim>\<open>parse_runtime_duration(runtime)\<close>. \<open>split("PT")[1]\<close> raises IndexError when the code
  holds no \<open>PT\<close>; each \<open>int(split[0])\<close> raises ValueError on a piece that is no integer.
  The source multiplies the piece before \<open>S\<close> by \<open>MINUTE_IN_SECONDS\<close>, and so does the model.
\<close>

definition HOUR_IN_SECONDS :: int where
  "HOUR_IN_SECONDS = 60 * 60"

definition MINUTE_IN_SECONDS :: int where
  "MINUTE_IN_SECONDS = 60"

text \<open>One \<^verbatim>\<open>if 'X' in runtime:\<close> block: the new \<open>(time, runtime)\<close>.\<close>

definition marker_step :: "char \<Rightarrow> int \<Rightarrow> int \<times> string \<Rightarrow> py_error + int \<times> string" where
  "marker_step m unit st =
     (case st of (t, runtime) \<Rightarrow>
        if str_in [m] runtime then
          (case split runtime [m] of
             p # q # _ \<Rightarrow>
               (case py_int p of
                  Inl e \<Rightarrow> Inl e
                | Inr n \<Rightarrow> Inr (t + n * unit, q))
           | _ \<Rightarrow> Inl IndexError)
        else Inr (t, runtime))"

text \<open>The three blocks, run on the text that follows \<open>PT\<close>.\<close>

definition duration_of_body :: "string \<Rightarrow> py_error + int" where
  "duration_of_body body =
     (case marker_step CHR ''H'' HOUR_IN_SECONDS (0, body) of
        Inl e \<Rightarrow> Inl e
      | Inr st1 \<Rightarrow>
          (case marker_step CHR ''M'' MINUTE_IN_SECONDS st1 of
             Inl e \<Rightarrow> Inl e
           | Inr st2 \<Rightarrow>
               (case marker_step CHR ''S'' MINUTE_IN_SECONDS st2 of
                  Inl e \<Rightarrow> Inl e
                | Inr st3 \<Rightarrow> Inr (fst st3))))"

definition parse_runtime_duration :: "string \<Rightarrow> py_error + int" where
  "parse_runtime_duration runtime =
     (case split runtime ''PT'' of
        _ # body # _ \<Rightarrow> duration_of_body body
      | _ \<Rightarrow> Inl IndexError)"

text \<open>
  The codes the claims about the parser speak of: a list of segments, each a numeral
  followed by one of the markers \<open>H\<close>, \<open>M\<close>, \<open>S\<close>, written one after the other.
\<close>

definition is_marker :: "char \<Rightarrow> bool" where
  "is_marker c = (c = CHR ''H'' \<or> c = CHR ''M'' \<or> c = CHR ''S'')"

definition numeral_text :: "string \<Rightarrow> bool" where
  "numeral_text n = (n \<noteq> [] \<and> (\<forall>c\<in>set n. is_digit c))"

definition marker_rank :: "char \<Rightarrow> nat" where
  "marker_rank c = (if c = CHR ''H'' then 0 else if c = CHR ''M'' then 1 else 2)"

definition segments_text :: "(string \<times> char) list \<Rightarrow> string" where
  "segments_text segs = concat (map (\<lambda>(n, m). n @ [m]) segs)"

definition markers_in_order :: "(string \<times> char) list \<Rightarrow> bool" where
  "markers_in_order segs = sorted_wrt (\<lambda>x y. marker_rank x < marker_rank y) (map snd segs)"

section \<open>calendar.py: the weekly pattern\<close>

definition day_names :: "string list" where
  "day_names = [''monday'', ''tuesday'', ''wednesday'', ''thursday'', ''friday'',
                ''saturday'', ''sunday'']"

text \<open>The two dictionaries of \<^verbatim>\<open>parse_day_range\<close>; a missing key raises KeyError.\<close>

definition weekday_to_num :: "string \<Rightarrow> py_error + nat" where
  "weekday_to_num d =
     (if d = ''monday'' then Inr 0 else if d = ''tuesday'' then Inr 1
      else if d = ''wednesday'' then Inr 2 else if d = ''thursday'' then Inr 3
      else if d = ''friday'' then Inr 4 else if d = ''saturday'' then Inr 5
      else if d = ''sunday'' then Inr 6 else Inl KeyError)"

definition num_to_weekday :: "nat \<Rightarrow> string" where
  "num_to_weekday i = day_names ! i"

text \<open>
  The calendar row: the seven day columns in the order the loop over \<open>range(7)\<close> fills
  them, each with its 0/1 flag.
\<close>

type_synonym day_row = "(string \<times> int) list"

definition calendar_row :: "nat list \<Rightarrow> day_row" where
  "calendar_row active_days =
     map (\<lambda>daynum. (num_to_weekday daynum, if daynum \<in> set active_days then 1 else 0)) [0..<7]"

text \<open>\<^verbatim>\<open>[weekday_to_num[day.lower()] for day in days]\<close>: the first missing key raises.\<close>

fun lookup_days :: "string list \<Rightarrow> py_error + nat list" where
  "lookup_days [] = Inr []"
| "lookup_days (d # ds) =
     (case weekday_to_num (lower d) of
        Inl e \<Rightarrow> Inl e
      | Inr i \<Rightarrow> (case lookup_days ds of Inl e \<Rightarrow> Inl e | Inr is \<Rightarrow> Inr (i # is)))"

text \<open>
  \<^verbatim>\<open>parse_day_range(dayinfo)\<close>; \<open>None\<close> is Python's \<open>None\<close>. The range form takes
  \<open>range(start_i, end_i + 1)\<close>, which is empty when the start lies after the end.
\<close>

definition parse_day_range :: "string option \<Rightarrow> py_error + day_row" where
  "parse_day_range dayinfo =
     (case dayinfo of
        None \<Rightarrow> Inr (map (\<lambda>i. (num_to_weekday i, 0)) [0..<7])
      | Some info \<Rightarrow>
          if str_in ''weekend'' (lower (strip info)) then Inr (calendar_row [5, 6])
          else if str_in ''To'' info then
            (case split info ''To'' of
               a # b # _ \<Rightarrow>
                 (case weekday_to_num (lower a) of
                    Inl e \<Rightarrow> Inl e
                  | Inr start_i \<Rightarrow>
                      (case weekday_to_num (lower b) of
                         Inl e \<Rightarrow> Inl e
                       | Inr end_i \<Rightarrow> Inr (calendar_row [start_i..<end_i + 1])))
             | _ \<Rightarrow> Inl IndexError)
          else if str_in ''|'' info then
            (case lookup_days (split info ''|'') of
               Inl e \<Rightarrow> Inl e
             | Inr active_days \<Rightarrow> Inr (calendar_row active_days))
          else
            (case weekday_to_num (lower info) of
               Inl e \<Rightarrow> Inl e
             | Inr i \<Rightarrow> Inr (calendar_row [i])))"

section \<open>transxchange.py: stop times of a vehicle journey\<close>

text \<open>
  \<^verbatim>\<open>get_midnight_formatted_times\<close>. \<open>last_second_of_day\<close> is 23:59:59 of
  \<open>current_date\<close>, second 86399 of the model.
\<close>

definition last_second_of_day :: datetime where
  "last_second_of_day = 23 * 3600 + 59 * 60 + 59"

definition over_midnight_surplus :: "datetime \<Rightarrow> int" where
  "over_midnight_surplus dt =
     td_seconds (td_truediv (td_truediv (dt_diff dt last_second_of_day) 60) 60) + 1"

definition get_midnight_formatted_times ::
  "int \<Rightarrow> int \<Rightarrow> int \<Rightarrow> datetime \<Rightarrow> datetime \<Rightarrow> int \<times> int" where
  "get_midnight_formatted_times arrival_hour departure_hour hour current_dt departure_dt =
     (if arrival_hour < hour
      then (23 + over_midnight_surplus current_dt, 23 + over_midnight_surplus departure_dt)
      else (arrival_hour, departure_hour))"

text \<open>
  The two clock strings of a stop, as both \<^verbatim>\<open>process_vehicle_journeys\<close> and
  \<^verbatim>\<open>get_last_stop_time_info\<close> build them.
\<close>

definition clock_strings :: "int \<Rightarrow> datetime \<Rightarrow> datetime \<Rightarrow> string \<times> string" where
  "clock_strings hour current_dt departure_dt =
     (case get_midnight_formatted_times (dt_hour current_dt) (dt_hour departure_dt) hour
             current_dt departure_dt of
        (arrival_hour, departure_hour) \<Rightarrow>
          (zfill (str_int arrival_hour) 2 @ '':'' @ strftime_MS current_dt,
           zfill (str_int departure_hour) 2 @ '':'' @ strftime_MS departure_dt))"

subsection \<open>The parsed document and the table of stop visits\<close>

text \<open>
  What the program reads out of the parsed document: of a timing link its two stop references,
  its \<open>RunTime\<close> text and its route link; of a section its \<open>id\<close> and its links in
  document order; of a vehicle journey its references, its \<open>DepartureTime\<close> text and what
  \<^verbatim>\<open>get_weekday_info\<close> and \<^verbatim>\<open>get_calendar_dates_exceptions\<close> return for it
  (\<open>None\<close> when the journey has no operating profile).
\<close>

record timing_link =
  link_from :: string
  link_to :: string
  link_run_time :: string
  link_route_link_ref :: string

record jp_section =
  section_id :: string
  section_links :: "timing_link list"

record vehicle_journey =
  vj_service_ref :: string
  vj_journey_pattern_ref :: string
  vj_code :: string
  vj_weekdays :: "string option"
  vj_non_operative_days :: "string option"
  vj_departure_time :: string

text \<open>A row of \<open>service_jp_info\<close>, as \<^verbatim>\<open>get_service_journey_pattern_info\<close> builds it.\<close>

record jp_info =
  jp_journey_pattern_id :: string
  jp_section_reference :: string
  jp_agency_id :: string
  jp_route_id :: string
  jp_direction_id :: int
  jp_line_name :: string
  jp_travel_mode :: "int option"
  jp_trip_headsign :: string
  jp_vehicle_type :: "string option"
  jp_start_date :: string
  jp_end_date :: string

text \<open>
  A row of \<open>gtfs_info\<close>. \<open>None\<close> stands for Python's \<open>None\<close> and for the missing
  value that \<open>pd.concat\<close> puts where a row lacks a column.
\<close>

record gtfs_row =
  stop_id :: string
  stop_sequence :: int
  timepoint :: int
  arrival_time :: string
  departure_time :: string
  route_link_ref :: string
  agency_id :: string
  trip_id :: string
  route_id :: string
  vehicle_journey_id :: string
  service_ref :: string
  direction_id :: int
  line_name :: string
  travel_mode :: int
  trip_headsign :: string
  vehicle_type :: "string option"
  start_date :: string
  end_date :: string
  weekdays :: "string option"
  non_operative_days :: "string option"
  service_id :: "string option"

text \<open>\<^verbatim>\<open>f"{x}"\<close> for a value that is a string or \<open>None\<close>.\<close>

definition fmt_opt :: "string option \<Rightarrow> string" where
  "fmt_opt x = (case x of None \<Rightarrow> ''None'' | Some v \<Rightarrow> v)"

subsection \<open>The walk over the timing links of a section\<close>

definition boarding_time :: int where
  "boarding_time = 0"

text \<open>
  The variables of \<^verbatim>\<open>process_vehicle_journeys\<close> that the loop over the links reads
  and writes: \<open>current_dt\<close> (\<open>None\<close> until the first link of the journey), \<open>stop_num\<close>,
  the rows of \<open>section_times\<close> (and whether the name has been assigned at all: it is
  first bound inside the loop over the sections), and \<open>duration\<close> and \<open>route_link_ref\<close>
  as the last link left them.
\<close>

record walk =
  current_dt :: "datetime option"
  stop_num :: int
  section_times :: "gtfs_row list"
  section_times_bound :: bool
  duration :: int
  last_route_link_ref :: string

text \<open>
  One pass of \<^verbatim>\<open>for link in timing_links\<close>. \<open>base\<close> carries the columns that are the
  same for every row of the journey and section. \<open>time(hour, minute)\<close> raises ValueError
  outside 0..23 and 0..59.
\<close>

definition link_step :: "int \<Rightarrow> int \<Rightarrow> gtfs_row \<Rightarrow> timing_link \<Rightarrow> walk \<Rightarrow> py_error + walk" where
  "link_step hour minute base link w =
     (case parse_runtime_duration (link_run_time link) of
        Inl e \<Rightarrow> Inl e
      | Inr dur \<Rightarrow>
          (case (case current_dt w of
                   None \<Rightarrow>
                     if 0 \<le> hour \<and> hour \<le> 23 \<and> 0 \<le> minute \<and> minute \<le> 59
                     then Inr (hour * 3600 + minute * 60, hour * 3600 + minute * 60, 1)
                     else Inl ValueError
                 | Some dt \<Rightarrow> Inr (dt + dur, dt + dur + boarding_time, 0)) of
             Inl e \<Rightarrow> Inl e
           | Inr (cur, departure_dt, tp) \<Rightarrow>
               (case clock_strings hour cur departure_dt of
                  (arrival_t, departure_t) \<Rightarrow>
                    Inr (w\<lparr>current_dt := Some cur,
                           stop_num := stop_num w + 1,
                           section_times := section_times w @
                             [base\<lparr>stop_id := link_from link,
                                   stop_sequence := stop_num w,
                                   timepoint := tp,
                                   arrival_time := arrival_t,
                                   departure_time := departure_t,
                                   route_link_ref := link_route_link_ref link\<rparr>],
                           duration := dur,
                           last_route_link_ref := link_route_link_ref link\<rparr>))))"

fun walk_links :: "int \<Rightarrow> int \<Rightarrow> gtfs_row \<Rightarrow> timing_link list \<Rightarrow> walk \<Rightarrow> py_error + walk" where
  "walk_links hour minute base [] w = Inr w"
| "walk_links hour minute base (link # links) w =
     (case link_step hour minute base link w of
        Inl e \<Rightarrow> Inl e
      | Inr w' \<Rightarrow> walk_links hour minute base links w')"

text \<open>
  \<^verbatim>\<open>get_last_stop_time_info\<close> and the columns that the caller adds to its row. The
  function adds \<open>duration\<close> to its own copy of \<open>current_dt\<close>; the caller's is unchanged.
  The row has no \<open>non_operative_days\<close>.
\<close>

definition get_last_stop_time_info ::
  "timing_link \<Rightarrow> int \<Rightarrow> datetime \<Rightarrow> int \<Rightarrow> int \<Rightarrow> int \<Rightarrow> string \<times> int \<times> string \<times> string" where
  "get_last_stop_time_info link hour cur dur stop_n boarding =
     (let cur' = cur + dur; departure_dt = cur' + boarding
      in case clock_strings hour cur' departure_dt of
           (arrival_t, departure_t) \<Rightarrow> (link_to link, stop_n, arrival_t, departure_t))"

definition last_stop_row :: "int \<Rightarrow> gtfs_row \<Rightarrow> timing_link \<Rightarrow> walk \<Rightarrow> datetime \<Rightarrow> gtfs_row" where
  "last_stop_row hour base link w cur =
     (case get_last_stop_time_info link hour cur (duration w) (stop_num w) boarding_time of
        (sid, sn, arrival_t, departure_t) \<Rightarrow>
          base\<lparr>stop_id := sid,
               stop_sequence := sn,
               arrival_time := arrival_t,
               departure_time := departure_t,
               timepoint := 0,
               route_link_ref := last_route_link_ref w,
               non_operative_days := None\<rparr>)"

text \<open>
  The body of \<^verbatim>\<open>for section in sections\<close> for a section whose id is among the
  references: \<open>section_times\<close> starts empty, the links are walked, the last stop is
  added. A section element without a timing link has no \<open>JourneyPatternTimingLink\<close>
  attribute (AttributeError).
\<close>

definition section_step ::
  "int \<Rightarrow> int \<Rightarrow> gtfs_row \<Rightarrow> jp_section \<Rightarrow> walk \<Rightarrow> py_error + walk" where
  "section_step hour minute base section w =
     (case section_links section of
        [] \<Rightarrow> Inl AttributeError
      | links \<Rightarrow>
          (case walk_links hour minute base links
                  (w\<lparr>section_times := [], section_times_bound := True\<rparr>) of
             Inl e \<Rightarrow> Inl e
           | Inr w' \<Rightarrow>
               (case current_dt w' of
                  None \<Rightarrow> Inl TypeError
                | Some cur \<Rightarrow>
                    Inr (w'\<lparr>section_times := section_times w' @
                          [last_stop_row hour base (last links) w' cur]\<rparr>))))"

subsection \<open>Iterating over the sections and over the vehicle journeys\<close>

text \<open>
  \<^verbatim>\<open>for section in sections\<close>: the trip id is made of the section id, the weekly
  pattern and the zero-padded departure hour and minute; sections whose id is not among
  the references of the journey pattern are passed over.
\<close>

definition make_trip_id :: "string \<Rightarrow> string option \<Rightarrow> int \<Rightarrow> int \<Rightarrow> string" where
  "make_trip_id sid wd hour minute =
     sid @ ''_'' @ fmt_opt wd @ ''_'' @ zfill (str_int hour) 2 @ zfill (str_int minute) 2"

fun sections_loop ::
  "int \<Rightarrow> int \<Rightarrow> gtfs_row \<Rightarrow> string list \<Rightarrow> jp_section list \<Rightarrow> walk \<Rightarrow> py_error + walk" where
  "sections_loop hour minute base refs [] w = Inr w"
| "sections_loop hour minute base refs (section # rest) w =
     (if section_id section \<notin> set refs then sections_loop hour minute base refs rest w
      else
        (case section_step hour minute
                (base\<lparr>trip_id := make_trip_id (section_id section) (weekdays base) hour minute\<rparr>)
                section w of
           Inl e \<Rightarrow> Inl e
         | Inr w' \<Rightarrow> sections_loop hour minute base refs rest w'))"

text \<open>
  \<^verbatim>\<open>hour, minute, second = departure_time.split(':')\<close> followed by the three
  \<open>int(...)\<close>: anything but three pieces fails to unpack (ValueError).
\<close>

definition parse_departure_time :: "string \<Rightarrow> py_error + int \<times> int \<times> int" where
  "parse_departure_time t =
     (case split t '':'' of
        [h, m, s] \<Rightarrow>
          (case py_int h of
             Inl e \<Rightarrow> Inl e
           | Inr hour \<Rightarrow>
               (case py_int m of
                  Inl e \<Rightarrow> Inl e
                | Inr minute \<Rightarrow>
                    (case py_int s of
                       Inl e \<Rightarrow> Inl e
                     | Inr second \<Rightarrow> Inr (hour, minute, second))))
      | _ \<Rightarrow> Inl ValueError)"

text \<open>
  One pass of \<^verbatim>\<open>for i, journey in enumerate(vjourneys)\<close> of
  \<^verbatim>\<open>process_vehicle_journeys\<close>, on the pair of \<open>gtfs_info\<close> and the loop variables.
  A \<open>service_jp_info\<close> without rows is the empty frame of
  \<^verbatim>\<open>get_service_journey_pattern_info\<close>, which has no \<open>journey_pattern_id\<close> column
  (KeyError); \<open>.values[0]\<close> on a selection without rows raises IndexError. At the end the
  rows of \<open>section_times\<close>, as the last section walked left them, are added to
  \<open>gtfs_info\<close>.
\<close>

definition journey_step ::
  "jp_info list \<Rightarrow> jp_section list \<Rightarrow> string option \<Rightarrow> string option \<Rightarrow> vehicle_journey \<Rightarrow>
   gtfs_row list \<times> walk \<Rightarrow> py_error + gtfs_row list \<times> walk" where
  "journey_step service_jp_info sections service_operative_days service_non_operative_days
     journey st =
     (case st of (gtfs_info, w) \<Rightarrow>
        let wd = (case vj_weekdays journey of None \<Rightarrow> service_operative_days | Some x \<Rightarrow> Some x);
            nod = (case vj_non_operative_days journey of
                     None \<Rightarrow> service_non_operative_days | Some x \<Rightarrow> Some x)
        in if service_jp_info = [] then Inl KeyError
           else
             (case filter (\<lambda>r. jp_journey_pattern_id r = vj_journey_pattern_ref journey)
                     service_jp_info of
                [] \<Rightarrow> Inl IndexError
              | jp # jps \<Rightarrow>
                  (case parse_departure_time (vj_departure_time journey) of
                     Inl e \<Rightarrow> Inl e
                   | Inr (hour, minute, second) \<Rightarrow>
                       let base = \<lparr>stop_id = [], stop_sequence = 0, timepoint = 0,
                                     arrival_time = [], departure_time = [], route_link_ref = [],
                                     agency_id = jp_agency_id jp,
                                     trip_id = [],
                                     route_id = jp_route_id jp,
                                     vehicle_journey_id = vj_code journey,
                                     service_ref = vj_service_ref journey,
                                     direction_id = jp_direction_id jp,
                                     line_name = jp_line_name jp,
                                     travel_mode =
                                       (case jp_travel_mode jp of None \<Rightarrow> 3 | Some m \<Rightarrow> m),
                                     trip_headsign = jp_trip_headsign jp,
                                     vehicle_type = jp_vehicle_type jp,
                                     start_date = jp_start_date jp,
                                     end_date = jp_end_date jp,
                                     weekdays = wd,
                                     non_operative_days = nod,
                                     service_id = None\<rparr>
                       in (case sections_loop hour minute base
                                   (map jp_section_reference (jp # jps)) sections
                                   (w\<lparr>current_dt := None, stop_num := 1\<rparr>) of
                             Inl e \<Rightarrow> Inl e
                           | Inr w' \<Rightarrow>
                               if section_times_bound w'
                               then Inr (gtfs_info @ section_times w', w')
                               else Inl UnboundLocalError))))"

fun journeys_loop ::
  "jp_info list \<Rightarrow> jp_section list \<Rightarrow> string option \<Rightarrow> string option \<Rightarrow>
   vehicle_journey list \<Rightarrow> gtfs_row list \<times> walk \<Rightarrow> py_error + gtfs_row list \<times> walk" where
  "journeys_loop jpi sections sod snod [] st = Inr st"
| "journeys_loop jpi sections sod snod (journey # rest) st =
     (case journey_step jpi sections sod snod journey st of
        Inl e \<Rightarrow> Inl e
      | Inr st' \<Rightarrow> journeys_loop jpi sections sod snod rest st')"

definition initial_walk :: walk where
  "initial_walk = \<lparr>current_dt = None, stop_num = 1, section_times = [],
                    section_times_bound = False, duration = 0, last_route_link_ref = []\<rparr>"

section \<open>stop_times.py\<close>

text \<open>
  A data frame of \<open>gtfs_info\<close> rows: the names of its columns and its rows in index
  order. A field of a row whose column the frame does not have holds no value and is
  never read.
\<close>

record frame =
  columns :: "string list"
  rows :: "gtfs_row list"

definition gtfs_info_columns :: "string list" where
  "gtfs_info_columns =
     [''stop_id'', ''stop_sequence'', ''timepoint'', ''arrival_time'', ''departure_time'',
      ''route_link_ref'', ''agency_id'', ''trip_id'', ''route_id'', ''vehicle_journey_id'',
      ''service_ref'', ''direction_id'', ''line_name'', ''travel_mode'', ''trip_headsign'',
      ''vehicle_type'', ''start_date'', ''end_date'', ''weekdays'', ''non_operative_days'']"

text \<open>
  \<^verbatim>\<open>drop_duplicates\<close>: of the rows that agree on the key the first one stays.
  \<open>seen\<close> holds the keys met so far.
\<close>

fun drop_duplicates :: "('a \<Rightarrow> 'k) \<Rightarrow> 'k list \<Rightarrow> 'a list \<Rightarrow> 'a list" where
  "drop_duplicates key seen [] = []"
| "drop_duplicates key seen (r # rs) =
     (if key r \<in> set seen then drop_duplicates key seen rs
      else r # drop_duplicates key (key r # seen) rs)"

text \<open>
  The keys of \<^verbatim>\<open>groupby(col)\<close> in the order the groups are iterated: each value once,
  sorted. Rows whose key is missing belong to no group.
\<close>

definition group_keys :: "string list \<Rightarrow> string list" where
  "group_keys ks = sort (remdups ks)"

text \<open>\<^verbatim>\<open>stop_times.loc[sel, 'service_id'] = service_id\<close> for a row selection \<open>sel\<close>.\<close>

definition set_service_id :: "(gtfs_row \<Rightarrow> bool) \<Rightarrow> string \<Rightarrow> gtfs_row list \<Rightarrow> gtfs_row list" where
  "set_service_id sel sid rs = map (\<lambda>r. if sel r then r\<lparr>service_id := Some sid\<rparr> else r) rs"

text \<open>The id of one group of \<open>calendar_info\<close>: the columns are read off its first row.\<close>

definition group_service_id :: "gtfs_row \<Rightarrow> string" where
  "group_service_id g =
     service_ref g @ ''_'' @ start_date g @ ''_'' @ end_date g @ ''_'' @ fmt_opt (weekdays g)"

text \<open>One pass of \<^verbatim>\<open>for weekday, cgroup in calendar_groups\<close>.\<close>

definition group_step ::
  "string list \<Rightarrow> gtfs_row list \<Rightarrow> string \<Rightarrow> gtfs_row list \<Rightarrow> py_error + gtfs_row list" where
  "group_step cols calendar_info weekday stop_times =
     (case filter (\<lambda>r. weekdays r = Some weekday) calendar_info of
        [] \<Rightarrow> Inl IndexError
      | g # gs \<Rightarrow>
          if ''service_ref'' \<in> set cols \<and> ''start_date'' \<in> set cols \<and> ''end_date'' \<in> set cols
          then Inr (set_service_id
                      (\<lambda>r. vehicle_journey_id r \<in> set (map vehicle_journey_id (g # gs)))
                      (group_service_id g) stop_times)
          else Inl KeyError)"

fun groups_loop ::
  "string list \<Rightarrow> gtfs_row list \<Rightarrow> string list \<Rightarrow> gtfs_row list \<Rightarrow> py_error + gtfs_row list" where
  "groups_loop cols calendar_info [] stop_times = Inr stop_times"
| "groups_loop cols calendar_info (k # ks) stop_times =
     (case group_step cols calendar_info k stop_times of
        Inl e \<Rightarrow> Inl e
      | Inr stop_times' \<Rightarrow> groups_loop cols calendar_info ks stop_times')"

text \<open>
  The branch for a frame without a \<open>weekdays\<close> column:
  \<^verbatim>\<open>row.get('start_date', '19700101')\<close> reads the column if the frame has it.
\<close>

definition default_service_id :: "string list \<Rightarrow> gtfs_row \<Rightarrow> string" where
  "default_service_id cols r =
     service_ref r @ ''_''
     @ (if ''start_date'' \<in> set cols then start_date r else ''19700101'') @ ''_''
     @ (if ''end_date'' \<in> set cols then end_date r else ''20991231'') @ ''_default''"

fun default_loop :: "string list \<Rightarrow> gtfs_row list \<Rightarrow> gtfs_row list \<Rightarrow> gtfs_row list" where
  "default_loop cols [] stop_times = stop_times"
| "default_loop cols (r # rs) stop_times =
     default_loop cols rs
       (set_service_id (\<lambda>x. vehicle_journey_id x = vehicle_journey_id r)
          (default_service_id cols r) stop_times)"

text \<open>
  \<^verbatim>\<open>generate_service_id(stop_times)\<close>. \<open>drop_duplicates\<close> returns an empty frame as it
  is, and raises KeyError on a frame with rows that lacks the column.
\<close>

definition generate_service_id :: "frame \<Rightarrow> py_error + frame" where
  "generate_service_id stop_times =
     (let cols = (if ''service_id'' \<in> set (columns stop_times) then columns stop_times
                  else columns stop_times @ [''service_id'']);
          rs = map (\<lambda>r. r\<lparr>service_id := None\<rparr>) (rows stop_times)
      in if rs \<noteq> [] \<and> ''vehicle_journey_id'' \<notin> set cols then Inl KeyError
         else
           let calendar_info = drop_duplicates vehicle_journey_id [] rs
           in if ''weekdays'' \<notin> set cols then
                (if calendar_info \<noteq> [] \<and> ''service_ref'' \<in> set cols
                 then Inr \<lparr>columns = cols, rows = default_loop cols calendar_info rs\<rparr>
                 else Inr \<lparr>columns = cols, rows = rs\<rparr>)
              else
                (case groups_loop cols calendar_info
                        (group_keys (List.map_filter weekdays calendar_info)) rs of
                   Inl e \<Rightarrow> Inl e
                 | Inr rs' \<Rightarrow> Inr \<lparr>columns = cols, rows = rs'\<rparr>))"

text \<open>
  \<^verbatim>\<open>process_vehicle_journeys\<close>: the loop over the journeys from an empty
  \<open>gtfs_info\<close>, then \<^verbatim>\<open>generate_service_id\<close>. A \<open>gtfs_info\<close> that received no row is
  still the frame without columns it started as.
\<close>

definition process_vehicle_journeys ::
  "vehicle_journey list \<Rightarrow> jp_info list \<Rightarrow> jp_section list \<Rightarrow> string option \<Rightarrow> string option \<Rightarrow>
   py_error + frame" where
  "process_vehicle_journeys vjourneys service_jp_info sections service_operative_days
     service_non_operative_days =
     (case journeys_loop service_jp_info sections service_operative_days
             service_non_operative_days vjourneys ([], initial_walk) of
        Inl e \<Rightarrow> Inl e
      | Inr (gtfs_info, w) \<Rightarrow>
          generate_service_id
            \<lparr>columns = (if gtfs_info = [] then [] else gtfs_info_columns), rows = gtfs_info\<rparr>)"

text \<open>A row of the stop-times table: the six columns \<^verbatim>\<open>get_stop_times\<close> selects.\<close>

record stop_time =
  st_trip_id :: string
  st_arrival_time :: string
  st_departure_time :: string
  st_stop_id :: string
  st_stop_sequence :: int
  st_timepoint :: int

definition stop_times_cols :: "string list" where
  "stop_times_cols =
     [''trip_id'', ''arrival_time'', ''departure_time'', ''stop_id'', ''stop_sequence'',
      ''timepoint'']"

definition select_stop_time :: "gtfs_row \<Rightarrow> stop_time" where
  "select_stop_time r =
     \<lparr>st_trip_id = trip_id r, st_arrival_time = arrival_time r,
      st_departure_time = departure_time r, st_stop_id = stop_id r,
      st_stop_sequence = stop_sequence r, st_timepoint = timepoint r\<rparr>"

text \<open>
  \<^verbatim>\<open>for idx, group in grouped\<close>: the groups come in the order of their sorted keys, and
  a group is kept when it has more than one row.
\<close>

fun filter_groups :: "stop_time list \<Rightarrow> string list \<Rightarrow> stop_time list" where
  "filter_groups stop_times [] = []"
| "filter_groups stop_times (idx # idxs) =
     (let grp = filter (\<lambda>r. st_trip_id r = idx) stop_times
      in (if length grp > 1 then grp else []) @ filter_groups stop_times idxs)"

text \<open>
  \<^verbatim>\<open>get_stop_times(gtfs_info)\<close>: a frame that lacks one of the six columns gives the
  empty table; otherwise the columns are selected, rows equal in all six are dropped but
  the first, and the groups by \<open>trip_id\<close> are filtered.
\<close>

definition get_stop_times :: "frame \<Rightarrow> stop_time list" where
  "get_stop_times gtfs_info =
     (if \<exists>col\<in>set stop_times_cols. col \<notin> set (columns gtfs_info) then []
      else
        let stop_times = drop_duplicates id [] (map select_stop_time (rows gtfs_info))
        in filter_groups stop_times (group_keys (map st_trip_id stop_times)))"

text \<open>
  For the statements about \<^verbatim>\<open>generate_service_id\<close>: the weekly pattern of the vehicle
  journey a row belongs to, as the row of \<open>calendar_info\<close> for that journey gives it, and
  the id that the group of a pattern gets.
\<close>

definition journey_pattern_of :: "gtfs_row list \<Rightarrow> gtfs_row \<Rightarrow> string option" where
  "journey_pattern_of cal r =
     (case find (\<lambda>c. vehicle_journey_id c = vehicle_journey_id r) cal of
        None \<Rightarrow> None
      | Some c \<Rightarrow> weekdays c)"







section \<open>Properties of the string helpers\<close>


lemma split_from_first:
  "c \<notin> set xs \<Longrightarrow> split_from [c] acc (xs @ c # ys) = (rev acc @ xs) # split_from [c] [] ys"
  by (induction xs arbitrary: acc) (auto simp: starts_with_def)

lemma str_in_char: "str_in [c] s = (c \<in> set s)"
  by (induction s) (auto simp: starts_with_def)

lemma marker_step_absent:
  "m \<notin> set r \<Longrightarrow> marker_step m u (t, r) = Inr (t, r)"
  by (simp add: marker_step_def str_in_char)

lemma split_from_nonempty: "split_from sep acc s \<noteq> []"
  by (induction sep acc s rule: split_from.induct) auto

lemma marker_step_bad_prefix:
  "m \<notin> set p \<Longrightarrow> py_int p = Inl e \<Longrightarrow> marker_step m u (t, p @ m # q) = Inl e"
  by (cases "split_from [m] [] q")
    (simp_all add: marker_step_def str_in_char split_def split_from_first split_from_nonempty)

lemma int_digits_bad:
  "c \<in> set s \<Longrightarrow> \<not> is_digit c \<Longrightarrow> c \<noteq> CHR ''_'' \<Longrightarrow> int_digits acc s = None"
  by (induction acc s rule: int_digits.induct) auto

lemma int_unsigned_bad:
  "c \<in> set s \<Longrightarrow> \<not> is_digit c \<Longrightarrow> c \<noteq> CHR ''_'' \<Longrightarrow> int_unsigned s = None"
  by (cases s) (auto simp: int_unsigned_def int_digits_bad)

lemma strip_keeps:
  assumes "c \<in> set s" "\<not> is_space c"
  shows "c \<in> set (strip s)"
proof -
  have a: "c \<in> set (dropWhile is_space s)"
    using assms by (induction s) auto
  have b: "\<And>t. c \<in> set t \<Longrightarrow> c \<in> set (dropWhile is_space t)"
    subgoal for t using assms(2) by (induction t) auto
    done
  show ?thesis unfolding strip_def using b[of "rev (dropWhile is_space s)"] a by simp
qed

lemma py_int_marker:
  assumes "c \<in> set s" "is_marker c"
  shows "py_int s = Inl ValueError"
proof -
  have nd: "\<not> is_digit c" "c \<noteq> CHR ''_''" "\<not> is_space c" "c \<noteq> CHR ''-''" "c \<noteq> CHR ''+''"
    using assms(2) by (auto simp: is_marker_def is_digit_def is_space_def)
  have m: "c \<in> set (strip s)" using strip_keeps assms(1) nd(3) by simp
  show ?thesis
  proof (cases "strip s")
    case Nil
    then show ?thesis by (simp add: py_int_def)
  next
    case (Cons d ds)
    show ?thesis
    proof (cases "d = CHR ''-'' \<or> d = CHR ''+''")
      case True
      then have "c \<in> set ds" using m Cons nd by auto
      then have "int_unsigned ds = None" using int_unsigned_bad nd by simp
      then show ?thesis using True Cons by (auto simp: py_int_def)
    next
      case False
      have "int_unsigned (d # ds) = None" using int_unsigned_bad m nd Cons by simp
      then show ?thesis using False Cons by (simp add: py_int_def)
    qed
  qed
qed

lemma split_from_acc:
  "split_from sep acc s = (rev acc @ hd (split_from sep [] s)) # tl (split_from sep [] s)"
proof (induction s arbitrary: acc rule: length_induct)
  case (1 s)
  show ?case
  proof (cases s)
    case Nil
    then show ?thesis by simp
  next
    case (Cons c cs)
    show ?thesis
    proof (cases "sep \<noteq> [] \<and> starts_with (c # cs) sep")
      case True
      then show ?thesis using Cons by simp
    next
      case False
      have ih: "\<And>a. split_from sep a cs = (rev a @ hd (split_from sep [] cs)) # tl (split_from sep [] cs)"
        by (rule 1[rule_format]) (simp add: Cons)
      have "split_from sep acc (c # cs) = split_from sep (c # acc) cs" using False by auto
      also have "\<dots> = (rev (c # acc) @ hd (split_from sep [] cs)) # tl (split_from sep [] cs)"
        by (rule ih)
      finally have a: "split_from sep acc (c # cs) = (rev acc @ c # hd (split_from sep [] cs)) # tl (split_from sep [] cs)"
        by simp
      have "split_from sep [] (c # cs) = split_from sep [c] cs" using False by auto
      also have "\<dots> = (rev [c] @ hd (split_from sep [] cs)) # tl (split_from sep [] cs)"
        by (rule ih)
      finally have b: "split_from sep [] (c # cs) = (c # hd (split_from sep [] cs)) # tl (split_from sep [] cs)"
        by simp
      show ?thesis unfolding Cons a b by simp
    qed
  qed
qed

lemma split_PT_no_P:
  "CHR ''P'' \<notin> set xs \<Longrightarrow> split_from ''PT'' acc (xs @ ys) = split_from ''PT'' (rev xs @ acc) ys"
  by (induction xs arbitrary: acc) (auto simp: starts_with_def)

lemma split_PT_absent:
  "\<not> str_in ''PT'' s \<Longrightarrow> split_from ''PT'' acc s = [rev acc @ s]"
  by (induction s arbitrary: acc) (auto simp: starts_with_def)

lemma parse_no_PT: "\<not> str_in ''PT'' code \<Longrightarrow> parse_runtime_duration code = Inl IndexError"
  by (simp add: parse_runtime_duration_def split_def split_PT_absent)

section \<open>Properties of the duration parser\<close>

lemma py_int_error: "py_int s = Inl e \<Longrightarrow> e = ValueError"
  by (auto simp: py_int_def split: list.splits if_splits option.splits)

lemma marker_step_first:
  "m \<notin> set p \<Longrightarrow>
   marker_step m u (t, p @ m # q) =
     (case py_int p of Inl e \<Rightarrow> Inl e | Inr n \<Rightarrow> Inr (t + n * u, hd (split_from [m] [] q)))"
  by (cases "split_from [m] [] q")
    (auto simp: marker_step_def str_in_char split_def split_from_first split_from_nonempty
       split: sum.splits)

lemma hd_split_from_append:
  "c \<notin> set xs \<Longrightarrow> hd (split_from [c] [] (xs @ ys)) = xs @ hd (split_from [c] [] ys)"
proof (induction xs)
  case Nil
  then show ?case by simp
next
  case (Cons x xs)
  have "split_from [c] [] (x # xs @ ys) = split_from [c] [x] (xs @ ys)"
    using Cons.prems by (auto simp: starts_with_def)
  then have "hd (split_from [c] [] (x # xs @ ys)) = x # hd (split_from [c] [] (xs @ ys))"
    using split_from_acc[of "[c]" "[x]" "xs @ ys"] by simp
  then show ?case using Cons by simp
qed

lemma marker_step_marker_prefix:
  assumes "m \<notin> set p" "c \<in> set p" "is_marker c"
  shows "marker_step m u (t, p @ m # q) = Inl ValueError"
  using marker_step_bad_prefix[OF assms(1) py_int_marker[OF assms(2,3)]] .

lemma marker_step_in_prefix:
  assumes "m \<in> set r" "c \<in> set p" "is_marker c" "m \<notin> set p"
  shows "marker_step m u (t, p @ r) = Inl ValueError"
proof -
  obtain r1 r2 where r: "r = r1 @ m # r2" "m \<notin> set r1"
    using split_list_first[OF assms(1)] by blast
  have "marker_step m u (t, (p @ r1) @ m # r2) = Inl ValueError"
    by (rule marker_step_marker_prefix[of m "p @ r1" c]) (use assms r in auto)
  then show ?thesis using r by simp
qed

lemma numeral_text_chars:
  "numeral_text n \<Longrightarrow> c \<in> set n \<Longrightarrow> \<not> is_marker c \<and> c \<noteq> CHR ''P''"
  by (auto simp: numeral_text_def is_marker_def is_digit_def)

lemma parse_PT_body:
  assumes "CHR ''P'' \<notin> set xs"
  shows "parse_runtime_duration (''PT'' @ xs @ rest) =
         duration_of_body (xs @ hd (split_from ''PT'' [] rest))"
proof -
  have "split (''PT'' @ xs @ rest) ''PT'' = [] # split_from ''PT'' [] (xs @ rest)"
    by (simp add: split_def starts_with_def)
  also have "split_from ''PT'' [] (xs @ rest) = split_from ''PT'' (rev xs) rest"
    using split_PT_no_P[OF assms, of "[]" rest] by simp
  also have "\<dots> = (xs @ hd (split_from ''PT'' [] rest)) # tl (split_from ''PT'' [] rest)"
    using split_from_acc[of "''PT''" "rev xs" rest] by simp
  finally show ?thesis by (simp add: parse_runtime_duration_def)
qed

text \<open>S before M: whatever follows, one of the H and M blocks raises.\<close>

lemma duration_of_body_SM:
  assumes "numeral_text c" "numeral_text d"
  shows "duration_of_body (c @ CHR ''S'' # d @ CHR ''M'' # r) = Inl ValueError"
proof -
  let ?p = "c @ CHR ''S'' # d"
  have S: "CHR ''S'' \<in> set ?p" "is_marker CHR ''S''" by (simp_all add: is_marker_def)
  have nH: "CHR ''H'' \<notin> set (?p @ [CHR ''M''])" and nM: "CHR ''M'' \<notin> set ?p"
    using numeral_text_chars[OF assms(1)] numeral_text_chars[OF assms(2)]
    by (auto simp: is_marker_def)
  show ?thesis
  proof (cases "CHR ''H'' \<in> set r")
    case True
    have "marker_step CHR ''H'' HOUR_IN_SECONDS (0, (?p @ [CHR ''M'']) @ r) = Inl ValueError"
      by (rule marker_step_in_prefix[OF True _ S(2) nH]) simp
    then show ?thesis by (simp add: duration_of_body_def)
  next
    case False
    then have "CHR ''H'' \<notin> set (?p @ CHR ''M'' # r)" using nH by auto
    then have h: "marker_step CHR ''H'' HOUR_IN_SECONDS (0, ?p @ CHR ''M'' # r) = Inr (0, ?p @ CHR ''M'' # r)"
      by (rule marker_step_absent)
    have m: "marker_step CHR ''M'' MINUTE_IN_SECONDS (0, ?p @ CHR ''M'' # r) = Inl ValueError"
      by (rule marker_step_marker_prefix[OF nM S])
    show ?thesis using h m by (simp add: duration_of_body_def)
  qed
qed

lemma segments_text_Cons [simp]:
  "segments_text ((n, m) # segs) = n @ m # segments_text segs"
  "segments_text [] = []"
  by (simp_all add: segments_text_def)

lemma segments_text_append [simp]:
  "segments_text (xs @ ys) = segments_text xs @ segments_text ys"
  by (simp add: segments_text_def)

lemma segments_text_avoids:
  assumes "\<forall>(n, m)\<in>set s. numeral_text n \<and> m \<noteq> c" "is_marker c \<or> c = CHR ''P''"
  shows "c \<notin> set (segments_text s)"
  using assms(1)
proof (induction s)
  case Nil
  then show ?case by simp
next
  case (Cons a s)
  obtain n m where a: "a = (n, m)" by (cases a)
  have "c \<notin> set n" using Cons.prems a numeral_text_chars[of n c] assms(2) by auto
  then show ?case using Cons a by auto
qed

lemma two_markers_out_of_order:
  assumes "set ms \<subseteq> {CHR ''M'', CHR ''S''}" "distinct ms"
    and "\<not> sorted_wrt (\<lambda>x y. marker_rank x < marker_rank y) ms"
  shows "ms = [CHR ''S'', CHR ''M'']"
proof (cases ms)
  case Nil
  then show ?thesis using assms by simp
next
  case (Cons x xs)
  note c1 = this
  show ?thesis
  proof (cases xs)
    case Nil
    then show ?thesis using assms c1 by simp
  next
    case (Cons y ys)
    note c2 = this
    show ?thesis
    proof (cases ys)
      case Nil
      then show ?thesis using assms c1 c2 by (auto simp: marker_rank_def)
    next
      case (Cons z zs)
      then show ?thesis using assms(1,2) c1 c2 by auto
    qed
  qed
qed

lemma out_of_order_segments:
  assumes ok: "\<forall>(n, m)\<in>set segs. numeral_text n \<and> is_marker m"
    and dist: "distinct (map snd segs)"
    and bad: "\<not> markers_in_order segs"
  shows "parse_runtime_duration (''PT'' @ segments_text segs @ rest) = Inl ValueError"
proof -
  define p where "p = hd (split_from ''PT'' [] rest)"
  have "\<forall>(n, m)\<in>set segs. numeral_text n \<and> m \<noteq> CHR ''P''"
    using ok by (auto simp: is_marker_def)
  then have chars: "CHR ''P'' \<notin> set (segments_text segs)"
    by (rule segments_text_avoids) simp
  have body: "parse_runtime_duration (''PT'' @ segments_text segs @ rest) =
              duration_of_body (segments_text segs @ p)"
    unfolding p_def by (rule parse_PT_body[OF chars])
  have ms: "set (map snd segs) \<subseteq> {CHR ''H'', CHR ''M'', CHR ''S''}"
    using ok by (auto simp: is_marker_def)
  have unsorted: "\<not> sorted_wrt (\<lambda>x y. marker_rank x < marker_rank y) (map snd segs)"
    using bad by (simp add: markers_in_order_def)
  have two: "duration_of_body (segments_text s @ r) = Inl ValueError
      \<and> marker_step CHR ''M'' MINUTE_IN_SECONDS (t, segments_text s @ r) = Inl ValueError"
    if sub: "set s \<subseteq> set segs" and sm: "map snd s = [CHR ''S'', CHR ''M'']" for s r t
  proof -
    obtain c d where s: "s = [(c, CHR ''S''), (d, CHR ''M'')]"
      using sm by (cases s; cases "tl s") auto
    have cd: "numeral_text c" "numeral_text d" using sub ok s by auto
    have nM: "CHR ''M'' \<notin> set (c @ CHR ''S'' # d)"
      using numeral_text_chars[OF cd(1)] numeral_text_chars[OF cd(2)]
      by (auto simp: is_marker_def)
    have "marker_step CHR ''M'' MINUTE_IN_SECONDS (t, (c @ CHR ''S'' # d) @ CHR ''M'' # r)
          = Inl ValueError"
      by (rule marker_step_marker_prefix[OF nM, of "CHR ''S''"]) (simp_all add: is_marker_def)
    then show ?thesis using duration_of_body_SM[OF cd, of r] s by simp
  qed
  show ?thesis
  proof (cases "CHR ''H'' \<in> set (map snd segs)")
    case False
    then have "set (map snd segs) \<subseteq> {CHR ''M'', CHR ''S''}"
      using ms by blast
    then have "map snd segs = [CHR ''S'', CHR ''M'']"
      by (rule two_markers_out_of_order[OF _ dist unsorted])
    then show ?thesis using two[of segs p] body by simp
  next
    case True
    then have "\<exists>y\<in>set segs. snd y = CHR ''H''" by force
    then have "\<exists>s1 x s2. segs = s1 @ x # s2 \<and> snd x = CHR ''H''
        \<and> (\<forall>y\<in>set s1. snd y \<noteq> CHR ''H'')"
      by (rule split_list_first_prop)
    then obtain s1 x s2 where sp: "segs = s1 @ x # s2" "snd x = CHR ''H''"
        "\<forall>y\<in>set s1. snd y \<noteq> CHR ''H''"
      by blast
    obtain n where x: "x = (n, CHR ''H'')" using sp(2) by (cases x) simp
    have n: "numeral_text n" using ok sp(1) x by auto
    show ?thesis
    proof (cases s1)
      case (Cons y ys)
      obtain n0 m0 where y: "y = (n0, m0)" by (cases y)
      have m0: "is_marker m0" using ok sp(1) Cons y by auto
      let ?u = "segments_text s1 @ n"
      have in_u: "m0 \<in> set ?u" using Cons y by simp
      have "\<forall>(n, m)\<in>set s1. numeral_text n \<and> m \<noteq> CHR ''H''"
        using sp(1,3) ok by auto
      then have "CHR ''H'' \<notin> set (segments_text s1)"
        by (rule segments_text_avoids) (simp add: is_marker_def)
      then have nH: "CHR ''H'' \<notin> set ?u"
        using numeral_text_chars[OF n] by (auto simp: is_marker_def)
      have "marker_step CHR ''H'' HOUR_IN_SECONDS (0, ?u @ CHR ''H'' # (segments_text s2 @ p))
            = Inl ValueError"
        by (rule marker_step_marker_prefix[OF nH in_u m0])
      then have "duration_of_body (segments_text segs @ p) = Inl ValueError"
        using sp(1) x by (simp add: duration_of_body_def)
      then show ?thesis using body by simp
    next
      case Nil
      have segs: "segs = (n, CHR ''H'') # s2" using sp(1) x Nil by simp
      have ms2: "set (map snd s2) \<subseteq> {CHR ''M'', CHR ''S''}"
      proof -
        have "CHR ''H'' \<notin> set (map snd s2)" using dist segs by simp
        moreover have "set (map snd s2) \<subseteq> {CHR ''H'', CHR ''M'', CHR ''S''}"
          using ms segs by simp
        ultimately show ?thesis by blast
      qed
      have "\<forall>m\<in>set (map snd s2). marker_rank CHR ''H'' < marker_rank m"
        using ms2 by (auto simp: marker_rank_def)
      then have "\<not> sorted_wrt (\<lambda>x y. marker_rank x < marker_rank y) (map snd s2)"
        using unsorted segs by simp
      then have s2: "map snd s2 = [CHR ''S'', CHR ''M'']"
        using two_markers_out_of_order[OF ms2] dist segs by simp
      have "\<forall>(n, m)\<in>set s2. numeral_text n \<and> m \<noteq> CHR ''H''"
        using ms2 ok segs by auto
      then have "CHR ''H'' \<notin> set (segments_text s2)"
        by (rule segments_text_avoids) (simp add: is_marker_def)
      then have nH: "CHR ''H'' \<notin> set n" "CHR ''H'' \<notin> set (segments_text s2)"
        using numeral_text_chars[OF n] by (auto simp: is_marker_def)
      have h: "marker_step CHR ''H'' HOUR_IN_SECONDS (0, n @ CHR ''H'' # (segments_text s2 @ p)) =
            (case py_int n of Inl e \<Rightarrow> Inl e
             | Inr v \<Rightarrow> Inr (0 + v * HOUR_IN_SECONDS,
                  segments_text s2 @ hd (split_from [CHR ''H''] [] p)))"
        using marker_step_first[OF nH(1)] hd_split_from_append[OF nH(2)]
        by (simp split: sum.splits)
      show ?thesis
      proof (cases "py_int n")
        case (Inl e)
        then have "e = ValueError" by (rule py_int_error)
        then show ?thesis using body h Inl segs by (simp add: duration_of_body_def)
      next
        case (Inr v)
        have "marker_step CHR ''M'' MINUTE_IN_SECONDS
                (0 + v * HOUR_IN_SECONDS, segments_text s2 @ hd (split_from [CHR ''H''] [] p))
              = Inl ValueError"
          using two[OF _ s2] segs by auto
        then show ?thesis using body h Inr segs by (simp add: duration_of_body_def)
      qed
    qed
  qed
qed

text \<open>
  Claim C2. The claim: every valid duration code parses to the exact number of seconds it
  encodes, a seconds segment of N counting N seconds. The code multiplies the seconds
  segment by \<open>MINUTE_IN_SECONDS\<close>: the code for thirty seconds parses to 1800.
\<close>

theorem parse_runtime_duration_thirty_seconds:
  "parse_runtime_duration ''PT30S'' = Inr 1800"
  by code_simp

text \<open>
  Claim C8, as stated, fails: in \<open>PT1H2H5S3M\<close> the markers cannot be located in the
  order H, M, S, and the parser returns 3600 (the text between the first two \<open>H\<close> holds
  no marker, and what follows the second \<open>H\<close> is never read).
\<close>

theorem parse_runtime_duration_accepts_malformed:
  "\<not> markers_in_order [(''1'', CHR ''H''), (''2'', CHR ''H''), (''5'', CHR ''S''), (''3'', CHR ''M'')]
   \<and> parse_runtime_duration
        (''PT'' @ segments_text
           [(''1'', CHR ''H''), (''2'', CHR ''H''), (''5'', CHR ''S''), (''3'', CHR ''M'')])
       = Inr 3600"
  by code_simp

text \<open>
  Claim C8, amended. A code without \<open>PT\<close> raises IndexError. A code that starts with
  \<open>PT\<close> followed by numeral-and-marker segments whose markers are pairwise different and
  not in the order H, M, S raises ValueError, whatever follows the segments. (There is no
  error type of the parser's own, and codes outside these two families can return.)
\<close>

theorem parse_runtime_duration_malformed:
  "(\<not> str_in ''PT'' code \<longrightarrow> parse_runtime_duration code = Inl IndexError) \<and>
   ((\<forall>(n, m)\<in>set segs. numeral_text n \<and> is_marker m) \<and> distinct (map snd segs)
      \<and> \<not> markers_in_order segs
    \<longrightarrow> parse_runtime_duration (''PT'' @ segments_text segs @ rest) = Inl ValueError)"
  using parse_no_PT out_of_order_segments by blast

theorem parse_runtime_duration_malformed_witness:
  "\<not> str_in ''PT'' ''5M'' \<and> parse_runtime_duration ''5M'' = Inl IndexError \<and>
   numeral_text ''5'' \<and> is_marker CHR ''S'' \<and> numeral_text ''3'' \<and> is_marker CHR ''M'' \<and>
   distinct (map snd [(''5'', CHR ''S''), (''3'', CHR ''M'')]) \<and>
   \<not> markers_in_order [(''5'', CHR ''S''), (''3'', CHR ''M'')] \<and>
   parse_runtime_duration ''PT5S3M'' = Inl ValueError"
proof -
  have h1: "\<not> str_in ''PT'' ''5M''" by (simp add: starts_with_def)
  have h2: "(\<forall>(n, m)\<in>set [(''5'', CHR ''S''), (''3'', CHR ''M'')]. numeral_text n \<and> is_marker m)
      \<and> distinct (map snd [(''5'', CHR ''S''), (''3'', CHR ''M'')])
      \<and> \<not> markers_in_order [(''5'', CHR ''S''), (''3'', CHR ''M'')]"
    by (simp add: numeral_text_def is_marker_def is_digit_def markers_in_order_def marker_rank_def)
  note t = parse_runtime_duration_malformed
    [of "''5M''" "[(''5'', CHR ''S''), (''3'', CHR ''M'')]" "[]"]
  have "parse_runtime_duration ''5M'' = Inl IndexError" using t h1 by blast
  moreover have "parse_runtime_duration (''PT'' @ segments_text [(''5'', CHR ''S''), (''3'', CHR ''M'')] @ [])
      = Inl ValueError"
    using t h2 by blast
  ultimately show ?thesis using h1 h2 by simp
qed

section \<open>Properties of the weekly pattern\<close>

lemma str_in_iff: "str_in x s = (\<exists>p q. s = p @ x @ q)"
proof (induction s)
  case Nil
  then show ?case by auto
next
  case (Cons c cs)
  have a: "starts_with (c # cs) x = (\<exists>q. c # cs = x @ q)"
    unfolding starts_with_def
    by (metis append_eq_conv_conj)
  show ?case
  proof
    assume "str_in x (c # cs)"
    then consider "starts_with (c # cs) x" | "str_in x cs" by auto
    then show "\<exists>p q. c # cs = p @ x @ q"
    proof cases
      case 1
      then obtain q where "c # cs = [] @ x @ q" using a by auto
      then show ?thesis by blast
    next
      case 2
      then obtain p q where "cs = p @ x @ q" using Cons by auto
      then have "c # cs = (c # p) @ x @ q" by simp
      then show ?thesis by blast
    qed
  next
    assume "\<exists>p q. c # cs = p @ x @ q"
    then obtain p q where pq: "c # cs = p @ x @ q" by auto
    show "str_in x (c # cs)"
    proof (cases p)
      case Nil
      then have "starts_with (c # cs) x" using a pq by auto
      then show ?thesis by simp
    next
      case (Cons d ds)
      then have "cs = ds @ x @ q" using pq by simp
      then have "str_in x cs" using Cons.IH by auto
      then show ?thesis by simp
    qed
  qed
qed

lemma str_in_lower: "str_in x s \<Longrightarrow> str_in (lower x) (lower s)"
  unfolding str_in_iff lower_def by (metis map_append)

lemma split_To_first:
  "\<not> str_in ''To'' a \<Longrightarrow>
   split_from ''To'' acc (a @ ''To'' @ b) = (rev acc @ a) # split_from ''To'' [] b"
proof (induction a arbitrary: acc)
  case Nil
  then show ?case by (simp add: starts_with_def)
next
  case (Cons c cs)
  have no: "\<not> starts_with (c # cs @ ''To'' @ b) ''To''"
    using Cons.prems by (cases cs) (auto simp: starts_with_def)
  have "\<not> str_in ''To'' cs" using Cons.prems by simp
  then show ?case using Cons.IH[of "c # acc"] no by simp
qed

lemma split_To_absent:
  "\<not> str_in ''To'' s \<Longrightarrow> split_from ''To'' acc s = [rev acc @ s]"
  by (induction s arbitrary: acc) (auto simp: starts_with_def)

lemma strip_id:
  assumes "s \<noteq> []" "\<not> is_space (hd s)" "\<not> is_space (last s)"
  shows "strip s = s"
proof -
  have a: "dropWhile is_space s = s" using assms(1,2) by (cases s) auto
  have "rev s \<noteq> []" "\<not> is_space (hd (rev s))" using assms(1,3) by (simp_all add: hd_rev)
  then have "dropWhile is_space (rev s) = rev s" by (cases "rev s") auto
  then show ?thesis by (simp add: strip_def a)
qed

lemma lower_space: "is_space c \<Longrightarrow> lower_char c = c"
  by (auto simp: is_space_def lower_char_def Let_def)

lemma weekday_to_num_day_names:
  "weekday_to_num d = Inr i \<Longrightarrow> d \<in> set day_names"
  by (auto simp: weekday_to_num_def day_names_def split: if_splits)

lemma day_name_shape:
  assumes "lower s \<in> set day_names"
  shows "s \<noteq> []" "\<not> is_space (hd s)" "\<not> is_space (last s)" "\<not> str_in ''To'' s"
proof -
  show ne: "s \<noteq> []" using assms by (auto simp: lower_def day_names_def)
  have names: "\<And>d. d \<in> set day_names \<Longrightarrow>
      \<not> is_space (hd d) \<and> \<not> is_space (last d) \<and> \<not> str_in ''to'' d"
    by (auto simp: day_names_def is_space_def starts_with_def)
  show "\<not> is_space (hd s)"
  proof
    assume sp: "is_space (hd s)"
    have "hd (lower s) = lower_char (hd s)" using ne by (simp add: lower_def hd_map)
    then have "is_space (hd (lower s))" using sp lower_space by simp
    then show False using names assms by blast
  qed
  show "\<not> is_space (last s)"
  proof
    assume sp: "is_space (last s)"
    have "last (lower s) = lower_char (last s)" using ne by (simp add: lower_def last_map)
    then have "is_space (last (lower s))" using sp lower_space by simp
    then show False using names assms by blast
  qed
  show "\<not> str_in ''To'' s"
  proof
    assume "str_in ''To'' s"
    then have "str_in (lower ''To'') (lower s)" by (rule str_in_lower)
    moreover have "lower ''To'' = ''to''" by code_simp
    ultimately show False using names assms by auto
  qed
qed

lemma lower_To: "lower (x @ ''To'' @ y) = lower x @ ''to'' @ lower y"
proof -
  have "lower ''To'' = ''to''" by code_simp
  then show ?thesis by (simp add: lower_def)
qed

lemma no_weekend_in_range:
  assumes "x \<in> set day_names" "y \<in> set day_names"
  shows "\<not> str_in ''weekend'' (x @ ''to'' @ y)"
  using assms by (auto simp: day_names_def starts_with_def)

lemma calendar_row_empty: "calendar_row [] = map (\<lambda>d. (d, 0)) day_names"
  by (simp add: calendar_row_def num_to_weekday_def day_names_def upt_rec)


text \<open>
  Claim C10. A range \<open>DayAToDayB\<close> of two day names, in any letter case, in which the day
  \<open>DayA\<close> comes later in the week than \<open>DayB\<close>, gives the row with all seven days clear:
  no error, no wrap-around.
\<close>

theorem parse_day_range_reversed:
  assumes a: "weekday_to_num (lower a) = Inr i"
    and b: "weekday_to_num (lower b) = Inr j"
    and rev: "j < i"
  shows "parse_day_range (Some (a @ ''To'' @ b)) = Inr (map (\<lambda>d. (d, 0)) day_names)"
proof -
  note A = day_name_shape[OF weekday_to_num_day_names[OF a]]
  note B = day_name_shape[OF weekday_to_num_day_names[OF b]]
  let ?s = "a @ ''To'' @ b"
  have "strip ?s = ?s"
    by (rule strip_id) (use A B in auto)
  moreover have "lower ?s = lower a @ ''to'' @ lower b"
    by (rule lower_To)
  ultimately have nw: "\<not> str_in ''weekend'' (lower (strip ?s))"
    using no_weekend_in_range weekday_to_num_day_names[OF a] weekday_to_num_day_names[OF b]
    by simp
  have to: "str_in ''To'' ?s" unfolding str_in_iff by blast
  have sp: "split ?s ''To'' = [a, b]"
    using split_To_first[OF A(4), of "[]" b] split_To_absent[OF B(4), of "[]"]
    by (simp add: split_def)
  have "[i..<j + 1] = []" using rev by simp
  then show ?thesis
    using nw to sp a b by (simp add: parse_day_range_def calendar_row_empty)
qed

theorem parse_day_range_reversed_witness:
  "weekday_to_num (lower ''friday'') = Inr 4 \<and> weekday_to_num (lower ''monday'') = Inr 0
   \<and> (0::nat) < 4
   \<and> parse_day_range (Some ''fridayTomonday'') =
       Inr [(''monday'', 0), (''tuesday'', 0), (''wednesday'', 0), (''thursday'', 0),
            (''friday'', 0), (''saturday'', 0), (''sunday'', 0)]"
proof -
  have a: "weekday_to_num (lower ''friday'') = Inr 4" by code_simp
  have b: "weekday_to_num (lower ''monday'') = Inr 0" by code_simp
  have "parse_day_range (Some (''friday'' @ ''To'' @ ''monday'')) = Inr (map (\<lambda>d. (d, 0)) day_names)"
    using parse_day_range_reversed[OF a b] by simp
  then show ?thesis using a b by (simp add: day_names_def)
qed

section \<open>Properties of the clock strings\<close>








section \<open>Properties of the stop-times table\<close>

lemma set_drop_duplicates_id:
  "set (drop_duplicates id seen xs) = set xs - set seen"
  by (induction xs arbitrary: seen) auto

lemma distinct_drop_duplicates_id:
  "distinct (drop_duplicates id seen xs)"
  by (induction xs arbitrary: seen) (auto simp: set_drop_duplicates_id)

lemma set_group_keys: "set (group_keys ks) = set ks"
  by (simp add: group_keys_def)

lemma set_filter_groups:
  "set (filter_groups st keys) =
     {r \<in> set st. st_trip_id r \<in> set keys \<and> 1 < length (filter (\<lambda>x. st_trip_id x = st_trip_id r) st)}"
  by (induction keys) (auto simp: Let_def)

text \<open>
  Claim C7. On a frame that has the six stop-time columns, the rows that
  \<^verbatim>\<open>get_stop_times\<close> returns are exactly the stop-time records of the trips that have two
  or more records: a trip with a single record is absent, a trip with two records is
  present with both. The records of a trip are counted after the function has dropped
  rows that repeat an earlier one in all six columns.
\<close>

theorem get_stop_times_keeps:
  assumes "set stop_times_cols \<subseteq> set (columns gtfs_info)"
  shows "set (get_stop_times gtfs_info) =
           {r \<in> select_stop_time ` set (rows gtfs_info).
              2 \<le> card {x \<in> select_stop_time ` set (rows gtfs_info). st_trip_id x = st_trip_id r}}"
proof -
  define st where "st = drop_duplicates id [] (map select_stop_time (rows gtfs_info))"
  have s: "set st = select_stop_time ` set (rows gtfs_info)"
    by (simp add: st_def set_drop_duplicates_id)
  have d: "distinct st" by (simp add: st_def distinct_drop_duplicates_id)
  have len: "length (filter P st) = card {x \<in> set st. P x}" for P
    using distinct_length_filter[OF d, of P] by (simp add: Int_def conj_commute)
  have "get_stop_times gtfs_info = filter_groups st (group_keys (map st_trip_id st))"
    using assms by (auto simp: get_stop_times_def st_def Let_def)
  then have "set (get_stop_times gtfs_info) =
      {r \<in> set st. 2 \<le> card {x \<in> set st. st_trip_id x = st_trip_id r}}"
    by (auto simp: set_filter_groups set_group_keys len)
  then show ?thesis by (simp add: s)
qed

theorem get_stop_times_keeps_witness:
  "let gtfs_info =
         \<lparr>columns = gtfs_info_columns,
          rows = map (\<lambda>(t, s, n, c).
                   \<lparr>stop_id = s, stop_sequence = n, timepoint = 0, arrival_time = c,
                    departure_time = c, route_link_ref = ''RL'', agency_id = ''OP'', trip_id = t,
                    route_id = ''R1'', vehicle_journey_id = ''VJ1'', service_ref = ''S1'',
                    direction_id = 0, line_name = ''1'', travel_mode = 3, trip_headsign = ''Town'',
                    vehicle_type = None, start_date = ''20240101'', end_date = ''20241231'',
                    weekdays = Some ''Monday'', non_operative_days = None, service_id = None\<rparr>)
                 [(''T1'', ''A'', 1, ''08:00:00''), (''T2'', ''A'', 1, ''09:00:00''),
                  (''T2'', ''B'', 2, ''09:05:00'')]\<rparr>;
       kept =
         [\<lparr>st_trip_id = ''T2'', st_arrival_time = ''09:00:00'', st_departure_time = ''09:00:00'',
           st_stop_id = ''A'', st_stop_sequence = 1, st_timepoint = 0\<rparr>,
          \<lparr>st_trip_id = ''T2'', st_arrival_time = ''09:05:00'', st_departure_time = ''09:05:00'',
           st_stop_id = ''B'', st_stop_sequence = 2, st_timepoint = 0\<rparr>]
   in set stop_times_cols \<subseteq> set (columns gtfs_info)
      \<and> get_stop_times gtfs_info = kept
      \<and> {r \<in> select_stop_time ` set (rows gtfs_info).
           2 \<le> card {x \<in> select_stop_time ` set (rows gtfs_info). st_trip_id x = st_trip_id r}}
          = set kept"
proof -
  define gtfs_info where "gtfs_info =
         \<lparr>columns = gtfs_info_columns,
          rows = map (\<lambda>(t, s, n, c).
                   \<lparr>stop_id = s, stop_sequence = n, timepoint = 0, arrival_time = c,
                    departure_time = c, route_link_ref = ''RL'', agency_id = ''OP'', trip_id = t,
                    route_id = ''R1'', vehicle_journey_id = ''VJ1'', service_ref = ''S1'',
                    direction_id = 0, line_name = ''1'', travel_mode = 3, trip_headsign = ''Town'',
                    vehicle_type = None, start_date = ''20240101'', end_date = ''20241231'',
                    weekdays = Some ''Monday'', non_operative_days = None, service_id = None\<rparr>)
                 [(''T1'', ''A'', 1, ''08:00:00''), (''T2'', ''A'', 1, ''09:00:00''),
                  (''T2'', ''B'', 2, ''09:05:00'')]\<rparr>"
  define kept where "kept =
         [\<lparr>st_trip_id = ''T2'', st_arrival_time = ''09:00:00'', st_departure_time = ''09:00:00'',
           st_stop_id = ''A'', st_stop_sequence = 1, st_timepoint = 0\<rparr>,
          \<lparr>st_trip_id = ''T2'', st_arrival_time = ''09:05:00'', st_departure_time = ''09:05:00'',
           st_stop_id = ''B'', st_stop_sequence = 2, st_timepoint = 0\<rparr>]"
  have h: "set stop_times_cols \<subseteq> set (columns gtfs_info)"
    by (simp add: gtfs_info_def stop_times_cols_def gtfs_info_columns_def)
  have e: "get_stop_times gtfs_info = kept" unfolding gtfs_info_def kept_def by code_simp
  have "{r \<in> select_stop_time ` set (rows gtfs_info).
           2 \<le> card {x \<in> select_stop_time ` set (rows gtfs_info). st_trip_id x = st_trip_id r}}
        = set kept"
    using get_stop_times_keeps[OF h] e by simp
  then show ?thesis using h e unfolding gtfs_info_def kept_def by (simp only: Let_def) 
qed

section \<open>Properties of the service ids\<close>







lemma journey_pattern_of_upd [simp]:
  "journey_pattern_of cal (r\<lparr>service_id := x\<rparr>) = journey_pattern_of cal r"
  by (simp add: journey_pattern_of_def)











section \<open>Properties of the run over the vehicle journeys\<close>

lemma journeys_loop_append:
  "journeys_loop jpi secs sod snod (xs @ ys) st =
     (case journeys_loop jpi secs sod snod xs st of
        Inl e \<Rightarrow> Inl e
      | Inr st' \<Rightarrow> journeys_loop jpi secs sod snod ys st')"
  by (induction xs arbitrary: st) (auto split: sum.splits)

lemma journey_step_missing_pattern:
  assumes "vj_journey_pattern_ref j \<notin> jp_journey_pattern_id ` set jpi"
  shows "journey_step jpi secs sod snod j st = Inl (if jpi = [] then KeyError else IndexError)"
proof -
  have "\<And>r. r \<in> set jpi \<Longrightarrow> jp_journey_pattern_id r \<noteq> vj_journey_pattern_ref j"
    using assms by (metis image_eqI)
  then have "filter (\<lambda>r. jp_journey_pattern_id r = vj_journey_pattern_ref j) jpi = []"
    by (simp add: filter_empty_conv)
  then show ?thesis by (cases st) (simp add: journey_step_def Let_def)
qed

text \<open>
  Claim C9, as stated, fails: the first of two journeys refers to a pattern that the index
  does not have, the second to one it has; the run raises IndexError and returns no table,
  so the second journey is not materialized.
\<close>

theorem missing_pattern_not_skipped:
  "process_vehicle_journeys
     [\<lparr>vj_service_ref = ''S1'', vj_journey_pattern_ref = ''JP9'', vj_code = ''VJ1'',
        vj_weekdays = Some ''Monday'', vj_non_operative_days = None,
        vj_departure_time = ''08:00:00''\<rparr>,
      \<lparr>vj_service_ref = ''S1'', vj_journey_pattern_ref = ''JP1'', vj_code = ''VJ2'',
        vj_weekdays = Some ''Monday'', vj_non_operative_days = None,
        vj_departure_time = ''09:00:00''\<rparr>]
     [\<lparr>jp_journey_pattern_id = ''JP1'', jp_section_reference = ''JPS1'',
        jp_agency_id = ''OP'', jp_route_id = ''R1'', jp_direction_id = 0,
        jp_line_name = ''1'', jp_travel_mode = Some 3, jp_trip_headsign = ''Town'',
        jp_vehicle_type = None, jp_start_date = ''20240101'', jp_end_date = ''20241231''\<rparr>]
     [\<lparr>section_id = ''JPS1'',
        section_links = [\<lparr>link_from = ''A'', link_to = ''B'', link_run_time = ''PT5M'',
                           link_route_link_ref = ''RL1''\<rparr>]\<rparr>]
     None None
   = Inl IndexError"
  by code_simp

text \<open>
  Claim C9, amended. A vehicle journey whose pattern reference is absent from the index
  is not skipped: whatever journeys come before and after it, the run raises and returns
  no table; and when the index has rows and the journeys before it are processed without
  error, the exception is the IndexError of that journey.
\<close>

theorem missing_pattern_aborts_run:
  assumes "vj_journey_pattern_ref j \<notin> jp_journey_pattern_id ` set service_jp_info"
  shows "(\<exists>e. process_vehicle_journeys (pre @ j # post) service_jp_info sections sod snod = Inl e)
       \<and> (service_jp_info \<noteq> []
            \<and> \<not> isl (journeys_loop service_jp_info sections sod snod pre ([], initial_walk))
          \<longrightarrow> process_vehicle_journeys (pre @ j # post) service_jp_info sections sod snod
                = Inl IndexError)"
proof (cases "journeys_loop service_jp_info sections sod snod pre ([], initial_walk)")
  case (Inl e)
  then show ?thesis
    by (simp add: process_vehicle_journeys_def journeys_loop_append)
next
  case (Inr st)
  then show ?thesis
    using journey_step_missing_pattern[OF assms, of sections sod snod st]
    by (simp add: process_vehicle_journeys_def journeys_loop_append)
qed

theorem missing_pattern_aborts_run_witness:
  "let ok = \<lparr>vj_service_ref = ''S1'', vj_journey_pattern_ref = ''JP1'', vj_code = ''VJ1'',
              vj_weekdays = Some ''Monday'', vj_non_operative_days = None,
              vj_departure_time = ''08:00:00''\<rparr>;
       missing = \<lparr>vj_service_ref = ''S1'', vj_journey_pattern_ref = ''JP9'', vj_code = ''VJ2'',
              vj_weekdays = Some ''Monday'', vj_non_operative_days = None,
              vj_departure_time = ''09:00:00''\<rparr>;
       service_jp_info =
           [\<lparr>jp_journey_pattern_id = ''JP1'', jp_section_reference = ''JPS1'',
              jp_agency_id = ''OP'', jp_route_id = ''R1'', jp_direction_id = 0,
              jp_line_name = ''1'', jp_travel_mode = Some 3, jp_trip_headsign = ''Town'',
              jp_vehicle_type = None, jp_start_date = ''20240101'',
              jp_end_date = ''20241231''\<rparr>];
       sections =
           [\<lparr>section_id = ''JPS1'',
              section_links = [\<lparr>link_from = ''A'', link_to = ''B'', link_run_time = ''PT5M'',
                                 link_route_link_ref = ''RL1''\<rparr>]\<rparr>]
   in vj_journey_pattern_ref missing \<notin> jp_journey_pattern_id ` set service_jp_info
      \<and> service_jp_info \<noteq> []
      \<and> \<not> isl (journeys_loop service_jp_info sections None None [ok] ([], initial_walk))
      \<and> process_vehicle_journeys ([ok] @ missing # [ok]) service_jp_info sections None None
          = Inl IndexError"
proof -
  define ok where "ok = \<lparr>vj_service_ref = ''S1'', vj_journey_pattern_ref = ''JP1'', vj_code = ''VJ1'',
              vj_weekdays = Some ''Monday'', vj_non_operative_days = None,
              vj_departure_time = ''08:00:00''\<rparr>"
  define missing where "missing = \<lparr>vj_service_ref = ''S1'', vj_journey_pattern_ref = ''JP9'', vj_code = ''VJ2'',
              vj_weekdays = Some ''Monday'', vj_non_operative_days = None,
              vj_departure_time = ''09:00:00''\<rparr>"
  define service_jp_info where "service_jp_info =
           [\<lparr>jp_journey_pattern_id = ''JP1'', jp_section_reference = ''JPS1'',
              jp_agency_id = ''OP'', jp_route_id = ''R1'', jp_direction_id = 0,
              jp_line_name = ''1'', jp_travel_mode = Some 3, jp_trip_headsign = ''Town'',
              jp_vehicle_type = None, jp_start_date = ''20240101'',
              jp_end_date = ''20241231''\<rparr>]"
  define sections where "sections =
           [\<lparr>section_id = ''JPS1'',
              section_links = [\<lparr>link_from = ''A'', link_to = ''B'', link_run_time = ''PT5M'',
                                 link_route_link_ref = ''RL1''\<rparr>]\<rparr>]"
  have h1: "vj_journey_pattern_ref missing \<notin> jp_journey_pattern_id ` set service_jp_info"
    by (simp add: missing_def service_jp_info_def)
  have h2: "service_jp_info \<noteq> []" by (simp add: service_jp_info_def)
  have h3: "\<not> isl (journeys_loop service_jp_info sections None None [ok] ([], initial_walk))"
    unfolding service_jp_info_def sections_def ok_def by code_simp
  have "process_vehicle_journeys ([ok] @ missing # [ok]) service_jp_info sections None None
          = Inl IndexError"
    using missing_pattern_aborts_run[OF h1, of "[ok]" "[ok]" sections None None] h2 h3 by blast
  then show ?thesis
    using h1 h2 h3 unfolding ok_def missing_def service_jp_info_def sections_def
    by (simp only: Let_def simp_thms)
qed

section \<open>Properties of the rows of a vehicle journey\<close>

subsection \<open>Reading a clock string back\<close>

















subsection \<open>The walk over the links\<close>















text \<open>
  Claim C1. The claim: the stop at the end of the i-th link is reached at the departure
  time plus the durations of the links 1 to i. The code adds the duration of a link before
  it emits the stop the link starts from, and adds the duration of the last link once more
  for the last stop: with links of one and of two minutes from 08:00:00, the second stop
  is emitted at 08:02:00 and the third at 08:04:00, where the claim gives 08:01:00 and
  08:03:00; the duration of the first link is never used. The seconds of the departure
  time are dropped as well: a journey that leaves at 08:00:30 has its first stop at
  08:00:00.
\<close>

theorem link_duration_applied_to_origin:
  "map_sum id (\<lambda>f. map (\<lambda>r. (stop_id r, stop_sequence r, timepoint r, arrival_time r)) (rows f))
     (process_vehicle_journeys
        [\<lparr>vj_service_ref = ''S1'', vj_journey_pattern_ref = ''JP1'', vj_code = ''VJ1'',
           vj_weekdays = Some ''Monday'', vj_non_operative_days = None,
           vj_departure_time = ''08:00:00''\<rparr>]
        [\<lparr>jp_journey_pattern_id = ''JP1'', jp_section_reference = ''JPS1'',
           jp_agency_id = ''OP'', jp_route_id = ''R1'', jp_direction_id = 0,
           jp_line_name = ''1'', jp_travel_mode = Some 3, jp_trip_headsign = ''Town'',
           jp_vehicle_type = None, jp_start_date = ''20240101'', jp_end_date = ''20241231''\<rparr>]
        [\<lparr>section_id = ''JPS1'',
           section_links = [\<lparr>link_from = ''A'', link_to = ''B'', link_run_time = ''PT1M'',
                              link_route_link_ref = ''RL1''\<rparr>,
                            \<lparr>link_from = ''B'', link_to = ''C'', link_run_time = ''PT2M'',
                              link_route_link_ref = ''RL2''\<rparr>]\<rparr>]
        None None)
   = Inr [(''A'', 1, 1, ''08:00:00''), (''B'', 2, 0, ''08:02:00''), (''C'', 3, 0, ''08:04:00'')]
   \<and>
   map_sum id (\<lambda>f. map (\<lambda>r. (stop_id r, stop_sequence r, timepoint r, arrival_time r)) (rows f))
     (process_vehicle_journeys
        [\<lparr>vj_service_ref = ''S1'', vj_journey_pattern_ref = ''JP1'', vj_code = ''VJ1'',
           vj_weekdays = Some ''Monday'', vj_non_operative_days = None,
           vj_departure_time = ''08:00:30''\<rparr>]
        [\<lparr>jp_journey_pattern_id = ''JP1'', jp_section_reference = ''JPS1'',
           jp_agency_id = ''OP'', jp_route_id = ''R1'', jp_direction_id = 0,
           jp_line_name = ''1'', jp_travel_mode = Some 3, jp_trip_headsign = ''Town'',
           jp_vehicle_type = None, jp_start_date = ''20240101'', jp_end_date = ''20241231''\<rparr>]
        [\<lparr>section_id = ''JPS1'',
           section_links = [\<lparr>link_from = ''A'', link_to = ''B'', link_run_time = ''PT1M'',
                              link_route_link_ref = ''RL1''\<rparr>]\<rparr>]
        None None)
   = Inr [(''A'', 1, 1, ''08:00:00''), (''B'', 2, 0, ''08:01:00'')]"
  by code_simp

end
